theory Spec2Isabelle
  imports Complex_Main "HOL-Library.Sublist" "HOL-Library.Multiset"
begin

chapter \<open>Storyteller: the frontend's dropdowns, URL builder and SSE hook, and the hybrid retriever\<close>

text \<open>
  The definitions come first: the React components and helpers of the frontend, each
  translated from its TypeScript source, then the backend's retriever. The properties
  follow, one section per component.
\<close>

section \<open>The SSE hook (\<open>useSSE\<close>)\<close>

text \<open>
  The hook keeps four pieces of React state and one \<open>EventSource\<close>. The model is a
  record of the state, with \<open>sourceOpen\<close> for the \<open>EventSource\<close>: a closed source
  dispatches no further events to its listeners. \<open>JSON.parse\<close> is a parameter
  \<open>parse\<close>, returning \<open>None\<close> where it throws.
\<close>

record 'g sse_state =
  streamingText :: string
  graphData :: "'g option"
  isStreaming :: bool
  error :: "string option"
  sourceOpen :: bool

datatype sse_event = StoryChunk string | GraphDataEvent string | EndEvent | ErrorEvent

text \<open>The state of the hook before any effect has run (the \<open>useState\<close> initial values).\<close>

definition useSSE_initial :: "'g sse_state" where
  "useSSE_initial =
     \<lparr>streamingText = [], graphData = None, isStreaming = False, error = None,
      sourceOpen = False\<rparr>"

text \<open>
  The effect on \<open>url\<close>: a falsy url (\<open>null\<close> or the empty string) connects nothing;
  otherwise the state is reset and an \<open>EventSource\<close> is opened.
\<close>

definition useSSE_connect :: "string option \<Rightarrow> 'g sse_state \<Rightarrow> 'g sse_state" where
  "useSSE_connect url st =
     (case url of
        None \<Rightarrow> st
      | Some u \<Rightarrow>
          if u = [] then st
          else st\<lparr>streamingText := [], graphData := None, error := None,
                  isStreaming := True, sourceOpen := True\<rparr>)"

definition handleChunk :: "string \<Rightarrow> 'g sse_state \<Rightarrow> 'g sse_state" where
  "handleChunk d st = st\<lparr>streamingText := streamingText st @ d\<rparr>"

definition handleGraph :: "(string \<Rightarrow> 'g option) \<Rightarrow> string \<Rightarrow> 'g sse_state \<Rightarrow> 'g sse_state" where
  "handleGraph parse d st =
     (case parse d of
        Some g \<Rightarrow> st\<lparr>graphData := Some g\<rparr>
      | None \<Rightarrow> st\<lparr>error := Some ''Failed to parse graph data''\<rparr>)"

definition handleError :: "'g sse_state \<Rightarrow> 'g sse_state" where
  "handleError st =
     st\<lparr>error := Some ''Stream connection failed'', sourceOpen := False, isStreaming := False\<rparr>"

definition handleEnd :: "'g sse_state \<Rightarrow> 'g sse_state" where
  "handleEnd st = st\<lparr>sourceOpen := False, isStreaming := False\<rparr>"

text \<open>\<open>closeStream\<close>: closes the \<open>EventSource\<close> if there is one.\<close>

definition closeStream :: "'g sse_state \<Rightarrow> 'g sse_state" where
  "closeStream st = (if sourceOpen st then st\<lparr>sourceOpen := False, isStreaming := False\<rparr> else st)"

text \<open>One event arriving at the hook: the listener registered for its type runs.\<close>

fun dispatch :: "(string \<Rightarrow> 'g option) \<Rightarrow> 'g sse_state \<Rightarrow> sse_event \<Rightarrow> 'g sse_state" where
  "dispatch parse st (StoryChunk d) = (if sourceOpen st then handleChunk d st else st)"
| "dispatch parse st (GraphDataEvent d) = (if sourceOpen st then handleGraph parse d st else st)"
| "dispatch parse st EndEvent = (if sourceOpen st then handleEnd st else st)"
| "dispatch parse st ErrorEvent = (if sourceOpen st then handleError st else st)"

definition receive :: "(string \<Rightarrow> 'g option) \<Rightarrow> 'g sse_state \<Rightarrow> sse_event list \<Rightarrow> 'g sse_state" where
  "receive parse st evs = foldl (dispatch parse) st evs"

section \<open>The generic dropdown (\<open>BaseDropdown\<close>)\<close>

text \<open>
  \<open>highlightedIndex\<close> is a JavaScript number that only ever holds integers; it is an
  \<open>int\<close> here, since \<open>-1\<close> means that nothing is highlighted. A handler returns the
  new state together with the item passed to \<open>onSelect\<close>, if it was called.
\<close>

datatype key = ArrowDown | ArrowUp | Enter | Escape | OtherKey

record dropdown =
  isOpen :: bool
  highlightedIndex :: int

definition handleSelect :: "'a \<Rightarrow> dropdown \<Rightarrow> dropdown \<times> 'a option" where
  "handleSelect item st = (st\<lparr>isOpen := False, highlightedIndex := - 1\<rparr>, Some item)"

fun handleKeyDown :: "'a list \<Rightarrow> dropdown \<Rightarrow> key \<Rightarrow> dropdown \<times> 'a option" where
  "handleKeyDown items st ArrowDown =
     (st\<lparr>highlightedIndex :=
          (if highlightedIndex st < int (length items) - 1 then highlightedIndex st + 1
           else highlightedIndex st)\<rparr>, None)"
| "handleKeyDown items st ArrowUp =
     (st\<lparr>highlightedIndex :=
          (if highlightedIndex st > 0 then highlightedIndex st - 1 else 0)\<rparr>, None)"
| "handleKeyDown items st Enter =
     (if highlightedIndex st \<ge> 0 \<and> highlightedIndex st < int (length items)
      then handleSelect (items ! nat (highlightedIndex st)) st
      else (st, None))"
| "handleKeyDown items st Escape = (st\<lparr>isOpen := False, highlightedIndex := - 1\<rparr>, None)"
| "handleKeyDown items st OtherKey = (st, None)"

text \<open>The listener is registered only while the dropdown is open.\<close>

definition keydown :: "'a list \<Rightarrow> dropdown \<Rightarrow> key \<Rightarrow> dropdown \<times> 'a option" where
  "keydown items st k = (if isOpen st then handleKeyDown items st k else (st, None))"

text \<open>
  \<open>items.findIndex(p)\<close>: the first index whose item satisfies \<open>p\<close>, or \<open>-1\<close>.
\<close>

fun findIndex :: "('a \<Rightarrow> bool) \<Rightarrow> 'a list \<Rightarrow> int" where
  "findIndex p [] = - 1"
| "findIndex p (x # xs) =
     (if p x then 0 else (let i = findIndex p xs in if i < 0 then - 1 else i + 1))"

definition handleToggle ::
  "bool \<Rightarrow> ('a \<Rightarrow> string) \<Rightarrow> 'a option \<Rightarrow> 'a list \<Rightarrow> dropdown \<Rightarrow> dropdown" where
  "handleToggle disabled getKey selectedItem items st =
     (if disabled then st
      else if isOpen st then st\<lparr>isOpen := False\<rparr>
      else
        (let selectedIndex =
               (case selectedItem of
                  Some s \<Rightarrow> findIndex (\<lambda>item. getKey item = getKey s) items
                | None \<Rightarrow> - 1)
         in st\<lparr>isOpen := True,
                highlightedIndex := (if selectedIndex \<ge> 0 then selectedIndex else 0)\<rparr>))"

text \<open>A click on the button of the \<open>index\<close>-th rendered item; only rendered items exist.\<close>

definition clickItem :: "'a list \<Rightarrow> nat \<Rightarrow> dropdown \<Rightarrow> dropdown \<times> 'a option" where
  "clickItem items index st =
     (if isOpen st \<and> index < length items then handleSelect (items ! index) st else (st, None))"

text \<open>The range \<open>[-1, items.length - 1]\<close> of the highlighted index.\<close>

definition index_in_range :: "'a list \<Rightarrow> dropdown \<Rightarrow> bool" where
  "index_in_range items st \<longleftrightarrow>
     - 1 \<le> highlightedIndex st \<and> highlightedIndex st \<le> int (length items) - 1"

text \<open>The state before any event (the \<open>useState\<close> initial values): closed, nothing
  highlighted.\<close>

definition BaseDropdown_initial :: dropdown where
  "BaseDropdown_initial = \<lparr>isOpen = False, highlightedIndex = - 1\<rparr>"

text \<open>\<open>handleClickOutside\<close>: a mouse press outside the dropdown closes it and clears the
  highlight.\<close>

definition handleClickOutside :: "dropdown \<Rightarrow> dropdown" where
  "handleClickOutside st = st\<lparr>isOpen := False, highlightedIndex := - 1\<rparr>"

text \<open>\<open>onMouseEnter\<close> of the \<open>index\<close>-th rendered item; the items are rendered only
  while the dropdown is open.\<close>

definition mouseEnter :: "'a list \<Rightarrow> nat \<Rightarrow> dropdown \<Rightarrow> dropdown" where
  "mouseEnter items index st =
     (if isOpen st \<and> index < length items then st\<lparr>highlightedIndex := int index\<rparr> else st)"

text \<open>
  The events that write the component's state, each with the props of the render it
  arrives in (\<open>disabled\<close>, \<open>selectedItem\<close> and \<open>items\<close> may change between renders;
  \<open>getKey\<close> is fixed). The states of the component are those that a sequence of events
  reaches from the initial state.
\<close>

datatype 'a dropdown_event =
    Toggle bool "'a option" "'a list"
  | KeyDown "'a list" key
  | ClickItem "'a list" nat
  | ClickOutside
  | MouseEnter "'a list" nat

fun dropdown_step :: "('a \<Rightarrow> string) \<Rightarrow> dropdown \<Rightarrow> 'a dropdown_event \<Rightarrow> dropdown" where
  "dropdown_step getKey st (Toggle disabled selectedItem items) =
     handleToggle disabled getKey selectedItem items st"
| "dropdown_step getKey st (KeyDown items k) = fst (keydown items st k)"
| "dropdown_step getKey st (ClickItem items i) = fst (clickItem items i st)"
| "dropdown_step getKey st ClickOutside = handleClickOutside st"
| "dropdown_step getKey st (MouseEnter items i) = mouseEnter items i st"

definition dropdown_run :: "('a \<Rightarrow> string) \<Rightarrow> 'a dropdown_event list \<Rightarrow> dropdown" where
  "dropdown_run getKey evs = foldl (dropdown_step getKey) BaseDropdown_initial evs"

section \<open>The corpus selector (\<open>CorpusDropdown\<close>)\<close>

record CorpusInfo =
  name :: string
  display_name :: string
  description :: string
  is_active :: bool
  chunk_count :: nat
  last_processed :: "string option"
  needs_rebuild :: bool
  missing_components :: "string list"

record corpus_dropdown =
  corpuses :: "CorpusInfo list"
  loading :: bool

definition CorpusDropdown_initial :: corpus_dropdown where
  "CorpusDropdown_initial = \<lparr>corpuses = [], loading = True\<rparr>"

text \<open>
  \<open>loadCorpuses\<close>: the response of \<open>listCorpuses()\<close> is either the backend's list or a
  rejection (\<open>Inl\<close>, with the message); the \<open>finally\<close> block clears \<open>loading\<close> in both
  cases.
\<close>

definition loadCorpuses :: "string + CorpusInfo list \<Rightarrow> corpus_dropdown \<Rightarrow> corpus_dropdown" where
  "loadCorpuses response st =
     (case response of
        Inr data \<Rightarrow> st\<lparr>corpuses := filter is_active data, loading := False\<rparr>
      | Inl err \<Rightarrow> st\<lparr>loading := False\<rparr>)"

text \<open>
  What the component renders: the placeholder while loading (\<open>None\<close>), otherwise a
  \<open>BaseDropdown\<close> over \<open>corpuses\<close>.
\<close>

definition offered :: "corpus_dropdown \<Rightarrow> CorpusInfo list option" where
  "offered st = (if loading st then None else Some (corpuses st))"

text \<open>\<open>onSelect = (item) => setCorpus(item.name)\<close>: the corpus name a user action selects.\<close>

datatype action = Key key | Click nat

definition act :: "'a list \<Rightarrow> dropdown \<Rightarrow> action \<Rightarrow> dropdown \<times> 'a option" where
  "act items st a = (case a of Key k \<Rightarrow> keydown items st k | Click i \<Rightarrow> clickItem items i st)"

definition selectCorpus :: "corpus_dropdown \<Rightarrow> dropdown \<Rightarrow> action \<Rightarrow> CorpusInfo option" where
  "selectCorpus cd st a =
     (case offered cd of
        None \<Rightarrow> None
      | Some items \<Rightarrow> snd (act items st a))"

section \<open>The URL builder (\<open>buildURL\<close>, \<open>buildStreamStoryURL\<close>)\<close>

text \<open>
  A parameter value is a string, a number or a boolean; an optional field of the
  caller's object that is present with the value \<open>undefined\<close> is an entry too, and
  \<open>String(undefined)\<close> is \<open>undefined\<close>. Numbers are the integers, which
  \<open>String\<close> prints in decimal (below \<open>10^21\<close> in magnitude). Strings are byte
  sequences (UTF-8), which is what the URL serializer percent-encodes.
\<close>

datatype jsvalue = JString string | JNumber int | JBoolean bool | JUndefined

definition digit_char :: "nat \<Rightarrow> char" where
  "digit_char n = ''0123456789ABCDEF'' ! n"

fun decimal :: "nat \<Rightarrow> string" where
  "decimal n = (if n < 10 then [digit_char n] else decimal (n div 10) @ [digit_char (n mod 10)])"

fun String_js :: "jsvalue \<Rightarrow> string" where
  "String_js (JString s) = s"
| "String_js (JNumber n) = (if n < 0 then CHR ''-'' # decimal (nat (- n)) else decimal (nat n))"
| "String_js (JBoolean b) = (if b then ''true'' else ''false'')"
| "String_js JUndefined = ''undefined''"

text \<open>
  \<open>URLSearchParams\<close> is a list of name-value pairs; the URL's query is its
  \<open>application/x-www-form-urlencoded\<close> serialization: a space becomes \<open>+\<close>, the
  bytes \<open>* - . _\<close>, digits and ASCII letters stand for themselves, every other byte is
  \<open>%\<close> and two upper-case hexadecimal digits; pairs are joined by \<open>&\<close>.
\<close>

definition urlencoded_plain :: "char \<Rightarrow> bool" where
  "urlencoded_plain c \<longleftrightarrow>
     (let n = of_char c :: nat
      in n = 42 \<or> n = 45 \<or> n = 46 \<or> n = 95
         \<or> (48 \<le> n \<and> n \<le> 57) \<or> (65 \<le> n \<and> n \<le> 90) \<or> (97 \<le> n \<and> n \<le> 122))"

definition urlencoded_byte :: "char \<Rightarrow> string" where
  "urlencoded_byte c =
     (if c = CHR '' '' then ''+''
      else if urlencoded_plain c then [c]
      else [CHR ''%'', digit_char (of_char c div 16), digit_char (of_char c mod 16)])"

definition urlencoded :: "string \<Rightarrow> string" where
  "urlencoded s = concat (map urlencoded_byte s)"

fun join :: "string \<Rightarrow> string list \<Rightarrow> string" where
  "join sep [] = []"
| "join sep [x] = x"
| "join sep (x # y # ys) = x @ sep @ join sep (y # ys)"

definition urlencoded_pair :: "string \<times> string \<Rightarrow> string" where
  "urlencoded_pair p = urlencoded (fst p) @ ''='' @ urlencoded (snd p)"

definition urlencoded_serialize :: "(string \<times> string) list \<Rightarrow> string" where
  "urlencoded_serialize ps = join ''&'' (map urlencoded_pair ps)"

text \<open>
  A URL is its serialization up to the query, and its \<open>searchParams\<close>. The endpoints
  of \<open>API_CONFIG\<close> are absolute paths with no query and no fragment, so
  \<open>new URL(endpoint, baseURL)\<close> is the origin of \<open>baseURL\<close> followed by the endpoint
  (\<open>origin\<close> is \<open>http://localhost:8000\<close> when \<open>VITE_API_BASE_URL\<close> is not set).
\<close>

record URL =
  href_without_query :: string
  searchParams :: "(string \<times> string) list"

definition new_URL :: "string \<Rightarrow> string \<Rightarrow> URL" where
  "new_URL endpoint origin = \<lparr>href_without_query = origin @ endpoint, searchParams = []\<rparr>"

definition searchParams_append :: "URL \<Rightarrow> string \<Rightarrow> string \<Rightarrow> URL" where
  "searchParams_append url k v = url\<lparr>searchParams := searchParams url @ [(k, v)]\<rparr>"

definition URL_toString :: "URL \<Rightarrow> string" where
  "URL_toString url =
     href_without_query url @
     (if searchParams url = [] then [] else CHR ''?'' # urlencoded_serialize (searchParams url))"

text \<open>
  \<open>params\<close> is optional (\<open>None\<close> when left out); an object is the list of its own
  entries in the order \<open>Object.entries\<close> gives them.
\<close>

definition buildURL_url :: "string \<Rightarrow> string \<Rightarrow> (string \<times> jsvalue) list option \<Rightarrow> URL" where
  "buildURL_url origin endpoint params =
     (let url = new_URL endpoint origin
      in case params of
           None \<Rightarrow> url
         | Some entries \<Rightarrow>
             foldl (\<lambda>u (key, val). searchParams_append u key (String_js val)) url entries)"

definition buildURL :: "string \<Rightarrow> string \<Rightarrow> (string \<times> jsvalue) list option \<Rightarrow> string" where
  "buildURL origin endpoint params = URL_toString (buildURL_url origin endpoint params)"

definition streamStory :: string where
  "streamStory = ''/api/stream_story''"

definition buildStreamStoryURL :: "string \<Rightarrow> (string \<times> jsvalue) list \<Rightarrow> string" where
  "buildStreamStoryURL origin params = buildURL origin streamStory (Some params)"

section \<open>The hybrid retriever (backend)\<close>

text \<open>
  The retriever belongs to the Python backend (\<open>retriever.py\<close>, the
  \<open>HybridRetriever\<close> of the architecture guide), whose source is not at hand; the
  definitions of this section are written from the specification, sections 3, 4.1 and
  4.3. Scores are exact rationals.
\<close>

type_synonym chunk_id = string

text \<open>Modelled from the spec: the \<open>Chunk\<close> of the data model (the backend's chunk
  store is missing); \<open>chunk_text\<close> is its field \<open>text\<close>.\<close>

record Chunk =
  chunk_id :: chunk_id
  chunk_text :: string
  source_offset :: nat
  corpus_name :: string

text \<open>Modelled from the spec: a fused candidate before the text is attached, the
  entry that step 4 of the retriever's algorithm keeps per chunk id (the backend's fusion
  routine is missing).\<close>

record Candidate =
  cand_chunk_id :: chunk_id
  cand_score :: rat
  cand_vector_rank :: "nat option"
  cand_keyword_rank :: "nat option"

text \<open>Modelled from the spec: the \<open>RetrievalResult\<close> of the data model;
  \<open>result_chunk_id\<close> and \<open>result_text\<close> are its fields \<open>chunk_id\<close> and \<open>text\<close>.\<close>

record RetrievalResult =
  result_chunk_id :: chunk_id
  result_text :: string
  fused_score :: rat
  vector_rank :: "nat option"
  keyword_rank :: "nat option"

text \<open>Modelled from the spec: the two ranked result sets that the retriever fuses, the
  vector index's and the keyword index's.\<close>

datatype ranked_list = VectorList | KeywordList

text \<open>Modelled from the spec: the smoothing constant \<open>k\<close> of Reciprocal Rank Fusion,
  fixed at 60.\<close>

definition RRF_K :: nat where
  "RRF_K = 60"

text \<open>Modelled from the spec: one term \<open>1 / (rank_in_list + k)\<close> of the fused score.\<close>

definition rrf_term :: "nat \<Rightarrow> nat \<Rightarrow> rat" where
  "rrf_term k rank = 1 / of_nat (rank + k)"

text \<open>Modelled from the spec: the rank a candidate has recorded for one of the two lists
  (\<open>vector_rank\<close> or \<open>keyword_rank\<close>), absent when that list has not mentioned it.\<close>

definition list_rank :: "ranked_list \<Rightarrow> Candidate \<Rightarrow> nat option" where
  "list_rank l c =
     (case l of VectorList \<Rightarrow> cand_vector_rank c | KeywordList \<Rightarrow> cand_keyword_rank c)"

text \<open>Modelled from the spec: the entry made for a chunk id when a list first mentions
  it; the other list has contributed nothing yet.\<close>

definition new_candidate :: "ranked_list \<Rightarrow> nat \<Rightarrow> chunk_id \<Rightarrow> nat \<Rightarrow> Candidate" where
  "new_candidate l k cid rank =
     (case l of
        VectorList \<Rightarrow>
          \<lparr>cand_chunk_id = cid, cand_score = rrf_term k rank,
           cand_vector_rank = Some rank, cand_keyword_rank = None\<rparr>
      | KeywordList \<Rightarrow>
          \<lparr>cand_chunk_id = cid, cand_score = rrf_term k rank,
           cand_vector_rank = None, cand_keyword_rank = Some rank\<rparr>)"

text \<open>Modelled from the spec: a chunk already entered accumulates the term of a second
  list; its rank in a list is its position there, so a later repetition of the id in the
  same list adds nothing.\<close>

definition add_term :: "ranked_list \<Rightarrow> nat \<Rightarrow> nat \<Rightarrow> Candidate \<Rightarrow> Candidate" where
  "add_term l k rank c =
     (case list_rank l c of
        Some r \<Rightarrow> c
      | None \<Rightarrow>
          (case l of
             VectorList \<Rightarrow>
               c\<lparr>cand_score := cand_score c + rrf_term k rank, cand_vector_rank := Some rank\<rparr>
           | KeywordList \<Rightarrow>
               c\<lparr>cand_score := cand_score c + rrf_term k rank, cand_keyword_rank := Some rank\<rparr>))"

text \<open>Modelled from the spec: the fused scores as a dictionary in insertion order,
  updated for one chunk id at one rank of one list.\<close>

fun accumulate ::
  "ranked_list \<Rightarrow> nat \<Rightarrow> chunk_id \<Rightarrow> nat \<Rightarrow> Candidate list \<Rightarrow> Candidate list" where
  "accumulate l k cid rank [] = [new_candidate l k cid rank]"
| "accumulate l k cid rank (c # cs) =
     (if cand_chunk_id c = cid then add_term l k rank c # cs
      else c # accumulate l k cid rank cs)"

text \<open>Modelled from the spec: the loop over one ranked list, \<open>rank\<close> counting its
  positions.\<close>

fun accumulate_list ::
  "ranked_list \<Rightarrow> nat \<Rightarrow> nat \<Rightarrow> chunk_id list \<Rightarrow> Candidate list \<Rightarrow> Candidate list" where
  "accumulate_list l k rank [] cs = cs"
| "accumulate_list l k rank (cid # rest) cs =
     accumulate_list l k (Suc rank) rest (accumulate l k cid rank cs)"

text \<open>Modelled from the spec: Reciprocal Rank Fusion (step 4), a function of the two
  ranked id lists and the constant; positions are counted from 1.\<close>

definition rrf_fuse :: "nat \<Rightarrow> chunk_id list \<Rightarrow> chunk_id list \<Rightarrow> Candidate list" where
  "rrf_fuse k vector_ids keyword_ids =
     accumulate_list KeywordList k 1 keyword_ids (accumulate_list VectorList k 1 vector_ids [])"

text \<open>Modelled from the spec: \<open>rank_in_list\<close>, the 1-based position of a chunk id in a
  ranked list, absent when the list does not contain it.\<close>

fun rank_in_list :: "chunk_id \<Rightarrow> chunk_id list \<Rightarrow> nat option" where
  "rank_in_list cid [] = None"
| "rank_in_list cid (x # xs) =
     (if x = cid then Some 1 else map_option Suc (rank_in_list cid xs))"

text \<open>Modelled from the spec: the fused score in the spec's words, the sum over the
  lists containing the chunk of \<open>1 / (rank_in_list + k)\<close>, a list that does not contain it
  contributing 0.\<close>

definition list_contribution :: "nat \<Rightarrow> chunk_id \<Rightarrow> chunk_id list \<Rightarrow> rat" where
  "list_contribution k cid xs =
     (case rank_in_list cid xs of None \<Rightarrow> 0 | Some r \<Rightarrow> 1 / of_nat (r + k))"

text \<open>Modelled from the spec: the sum of the two lists' contributions.\<close>

definition spec_fused_score :: "nat \<Rightarrow> chunk_id list \<Rightarrow> chunk_id list \<Rightarrow> chunk_id \<Rightarrow> rat" where
  "spec_fused_score k vector_ids keyword_ids cid =
     list_contribution k cid vector_ids + list_contribution k cid keyword_ids"

text \<open>Modelled from the spec: the fused entry of a chunk id, if there is one.\<close>

definition find_candidate :: "chunk_id \<Rightarrow> Candidate list \<Rightarrow> Candidate option" where
  "find_candidate cid cs = find (\<lambda>c. cand_chunk_id c = cid) cs"

text \<open>Modelled from the spec: chunk insertion order, the position of a chunk id in the
  corpus's chunk sequence (an id the corpus does not hold comes last).\<close>

fun insertion_index :: "Chunk list \<Rightarrow> chunk_id \<Rightarrow> nat" where
  "insertion_index [] cid = 0"
| "insertion_index (c # cs) cid = (if chunk_id c = cid then 0 else Suc (insertion_index cs cid))"

text \<open>Modelled from the spec: presence in both lists.\<close>

definition in_both :: "Candidate \<Rightarrow> bool" where
  "in_both c \<longleftrightarrow> cand_vector_rank c \<noteq> None \<and> cand_keyword_rank c \<noteq> None"

text \<open>Modelled from the spec: the comparison of step 5: a higher fused score first;
  on equal scores a chunk of both lists before a chunk of one; then the chunk inserted
  earlier.\<close>

definition ranks_before :: "Chunk list \<Rightarrow> Candidate \<Rightarrow> Candidate \<Rightarrow> bool" where
  "ranks_before chunks a b \<longleftrightarrow>
     cand_score a > cand_score b
     \<or> (cand_score a = cand_score b \<and> in_both a \<and> \<not> in_both b)
     \<or> (cand_score a = cand_score b \<and> in_both a = in_both b
         \<and> insertion_index chunks (cand_chunk_id a) < insertion_index chunks (cand_chunk_id b))"

text \<open>Modelled from the spec: the sort of step 5, as an insertion sort on that
  comparison.\<close>

fun insert_ranked :: "Chunk list \<Rightarrow> Candidate \<Rightarrow> Candidate list \<Rightarrow> Candidate list" where
  "insert_ranked chunks x [] = [x]"
| "insert_ranked chunks x (y # ys) =
     (if ranks_before chunks x y then x # y # ys else y # insert_ranked chunks x ys)"

text \<open>Modelled from the spec: the whole sort, inserting the fused candidates one by
  one.\<close>

definition rank_candidates :: "Chunk list \<Rightarrow> Candidate list \<Rightarrow> Candidate list" where
  "rank_candidates chunks cs = foldl (\<lambda>acc x. insert_ranked chunks x acc) [] cs"

text \<open>Modelled from the spec: the original text of a chunk id (empty for an id the
  corpus does not hold).\<close>

fun text_of :: "Chunk list \<Rightarrow> chunk_id \<Rightarrow> string" where
  "text_of [] cid = []"
| "text_of (c # cs) cid = (if chunk_id c = cid then chunk_text c else text_of cs cid)"

text \<open>Modelled from the spec: a candidate with its text attached, as a
  \<open>RetrievalResult\<close>.\<close>

definition attach_text :: "Chunk list \<Rightarrow> Candidate \<Rightarrow> RetrievalResult" where
  "attach_text chunks c =
     \<lparr>result_chunk_id = cand_chunk_id c, result_text = text_of chunks (cand_chunk_id c),
      fused_score = cand_score c, vector_rank = cand_vector_rank c,
      keyword_rank = cand_keyword_rank c\<rparr>"

text \<open>Modelled from the spec: steps 4 to 6 of the retriever on the two candidate
  lists: fuse, sort, truncate to \<open>top_k\<close>, attach the text.\<close>

definition fuse_and_rank ::
  "Chunk list \<Rightarrow> nat \<Rightarrow> chunk_id list \<Rightarrow> chunk_id list \<Rightarrow> RetrievalResult list" where
  "fuse_and_rank chunks top_k vector_ids keyword_ids =
     map (attach_text chunks)
       (take top_k (rank_candidates chunks (rrf_fuse RRF_K vector_ids keyword_ids)))"

text \<open>Modelled from the spec: the order of step 5 in the spec's words, between a result
  and any result after it: a strictly higher score, or the same score and either both
  lists against one, or the same presence and a chunk inserted no later.\<close>

definition spec_order :: "Chunk list \<Rightarrow> Candidate \<Rightarrow> Candidate \<Rightarrow> bool" where
  "spec_order chunks a b \<longleftrightarrow>
     cand_score a > cand_score b
     \<or> (cand_score a = cand_score b
         \<and> ((in_both a \<and> \<not> in_both b)
             \<or> (in_both a = in_both b
                 \<and> insertion_index chunks (cand_chunk_id a)
                     \<le> insertion_index chunks (cand_chunk_id b))))"

text \<open>The corpus of the spec's end-to-end scenario.\<close>

definition fable :: "Chunk list" where
  "fable =
     [\<lparr>chunk_id = ''c1'', chunk_text = ''one'', source_offset = 0, corpus_name = ''fable''\<rparr>,
      \<lparr>chunk_id = ''c2'', chunk_text = ''two'', source_offset = 3, corpus_name = ''fable''\<rparr>,
      \<lparr>chunk_id = ''c3'', chunk_text = ''three'', source_offset = 6, corpus_name = ''fable''\<rparr>]"

subsection \<open>The registry and the completeness gate\<close>

text \<open>Modelled from the spec: the three components of a corpus, \<open>chunks\<close>,
  \<open>vector_index\<close> and \<open>keyword_index\<close>.\<close>

datatype component = ChunksComponent | VectorIndex | KeywordIndex

text \<open>Modelled from the spec: the \<open>CorpusEntry\<close> of the registry, with the two fields
  the retriever reads (\<open>name\<close> and \<open>is_active\<close>); the registry itself is missing.\<close>

record CorpusEntry =
  entry_name :: string
  entry_is_active :: bool

text \<open>Modelled from the spec: the three persisted artifacts of one corpus, each absent
  (\<open>None\<close>) or present: the chunk files, the vector index as its records
  \<open>(chunk_id, embedding_vector)\<close>, the keyword index as its ordered chunk ids.\<close>

record 'v artifacts =
  chunk_files :: "Chunk list option"
  vector_records :: "(chunk_id \<times> 'v) list option"
  keyword_index_ids :: "chunk_id list option"

text \<open>Modelled from the spec: \<open>component_status\<close>, present or absent for each
  component.\<close>

record component_status =
  chunks_present :: bool
  vector_index_present :: bool
  keyword_index_present :: bool

text \<open>Modelled from the spec: \<open>compute_status\<close>, the present/absent flags read off the
  three artifact locations.\<close>

definition compute_status :: "'v artifacts \<Rightarrow> component_status" where
  "compute_status a =
     \<lparr>chunks_present = (chunk_files a \<noteq> None),
      vector_index_present = (vector_records a \<noteq> None),
      keyword_index_present = (keyword_index_ids a \<noteq> None)\<rparr>"

text \<open>Modelled from the spec: the missing components of a status.\<close>

definition missing_components_of :: "component_status \<Rightarrow> component list" where
  "missing_components_of s =
     (if chunks_present s then [] else [ChunksComponent])
     @ (if vector_index_present s then [] else [VectorIndex])
     @ (if keyword_index_present s then [] else [KeywordIndex])"

text \<open>Modelled from the spec: the current chunk ids, those of the chunks on disk.\<close>

definition current_chunk_ids :: "'v artifacts \<Rightarrow> chunk_id set" where
  "current_chunk_ids a = (case chunk_files a of None \<Rightarrow> {} | Some cs \<Rightarrow> set (map chunk_id cs))"

text \<open>Modelled from the spec: consistency, the chunk ids referenced by the vector index
  and by the keyword index are a subset of the current chunk ids.\<close>

definition consistent :: "'v artifacts \<Rightarrow> bool" where
  "consistent a \<longleftrightarrow>
     (case vector_records a of
        None \<Rightarrow> True
      | Some rs \<Rightarrow> list_all (\<lambda>r. fst r \<in> current_chunk_ids a) rs)
     \<and> (case keyword_index_ids a of
          None \<Rightarrow> True
        | Some ks \<Rightarrow> list_all (\<lambda>k. k \<in> current_chunk_ids a) ks)"

text \<open>Modelled from the spec: a corpus is complete iff all three components are present
  and consistent.\<close>

definition is_complete :: "'v artifacts \<Rightarrow> bool" where
  "is_complete a \<longleftrightarrow> missing_components_of (compute_status a) = [] \<and> consistent a"

text \<open>Modelled from the spec: \<open>CorpusUnavailableError\<close>, carrying the corpus name and
  the missing components.\<close>

datatype retrieval_error = CorpusUnavailableError string "component list"

text \<open>Modelled from the spec: the registry's \<open>get(name)\<close>, \<open>None\<close> for \<open>NotFound\<close>.\<close>

definition registry_get :: "CorpusEntry list \<Rightarrow> string \<Rightarrow> CorpusEntry option" where
  "registry_get registry nm = find (\<lambda>e. entry_name e = nm) registry"

text \<open>Modelled from the spec: the candidate-list depth \<open>N = max(top_k * 3, 10)\<close>.\<close>

definition candidate_depth :: "nat \<Rightarrow> nat" where
  "candidate_depth top_k = max (top_k * 3) 10"

text \<open>Modelled from the spec: the embedding client and the two index queries (steps 1 to
  3), external collaborators and so parameters of the retriever; a query is given the
  stored index, the query and the depth \<open>N\<close>, and returns ranked chunk ids.\<close>

record 'v index_clients =
  embed_query :: "string \<Rightarrow> 'v"
  vector_query :: "(chunk_id \<times> 'v) list \<Rightarrow> 'v \<Rightarrow> nat \<Rightarrow> chunk_id list"
  keyword_query :: "chunk_id list \<Rightarrow> Chunk list \<Rightarrow> string \<Rightarrow> nat \<Rightarrow> chunk_id list"

text \<open>Modelled from the spec: \<open>retrieve(corpus_name, query_text, top_k)\<close> without
  randomization: the precondition (a registered, active, complete corpus), then steps 1 to
  6; \<open>disk\<close> gives the artifacts stored under a corpus name.\<close>

definition retrieve ::
  "'v index_clients \<Rightarrow> CorpusEntry list \<Rightarrow> (string \<Rightarrow> 'v artifacts) \<Rightarrow> string \<Rightarrow> string \<Rightarrow> nat
     \<Rightarrow> retrieval_error + RetrievalResult list" where
  "retrieve clients registry disk nm query_text top_k =
     (let a = disk nm;
          unavailable = Inl (CorpusUnavailableError nm (missing_components_of (compute_status a)))
      in case registry_get registry nm of
           None \<Rightarrow> unavailable
         | Some e \<Rightarrow>
             if \<not> entry_is_active e \<or> \<not> is_complete a then unavailable
             else
               (case (chunk_files a, vector_records a, keyword_index_ids a) of
                  (Some cs, Some rs, Some ks) \<Rightarrow>
                    (let n = candidate_depth top_k;
                         vector_ids = vector_query clients rs (embed_query clients query_text) n;
                         keyword_hits = keyword_query clients ks cs query_text n
                     in Inr (fuse_and_rank cs top_k vector_ids keyword_hits))
                | _ \<Rightarrow> unavailable))"

subsection \<open>Auxiliary functions of the proofs\<close>

text \<open>What one position of a list does to the entry of its chunk id.\<close>

definition step_candidate ::
  "ranked_list \<Rightarrow> nat \<Rightarrow> chunk_id \<Rightarrow> nat \<Rightarrow> Candidate option \<Rightarrow> Candidate" where
  "step_candidate l k cid r copt =
     (case copt of None \<Rightarrow> new_candidate l k cid r | Some c \<Rightarrow> add_term l k r c)"

text \<open>The rank of an id in a list whose first position has rank \<open>r\<close>.\<close>

fun rank_from :: "nat \<Rightarrow> chunk_id \<Rightarrow> chunk_id list \<Rightarrow> nat option" where
  "rank_from r cid [] = None"
| "rank_from r cid (x # xs) = (if x = cid then Some r else rank_from (Suc r) cid xs)"

text \<open>Presence of one component among the artifacts.\<close>

definition component_present :: "'v artifacts \<Rightarrow> component \<Rightarrow> bool" where
  "component_present a c =
     (case c of
        ChunksComponent \<Rightarrow> chunk_files a \<noteq> None
      | VectorIndex \<Rightarrow> vector_records a \<noteq> None
      | KeywordIndex \<Rightarrow> keyword_index_ids a \<noteq> None)"

section \<open>Properties of the SSE hook\<close>

lemma receive_chunks_append:
  "sourceOpen st \<Longrightarrow>
     streamingText (receive parse st (map StoryChunk ds)) = streamingText st @ concat ds
     \<and> sourceOpen (receive parse st (map StoryChunk ds))"
  by (induction ds arbitrary: st) (simp_all add: receive_def handleChunk_def)

lemma foldl_append_concat: "foldl (@) acc ds = acc @ concat ds"
  by (induction ds arbitrary: acc) simp_all

lemma dispatch_graph_text:
  "streamingText (dispatch parse st (GraphDataEvent d)) = streamingText st"
  by (simp add: handleGraph_def split: option.splits)

text \<open>
  C10. After a connection is opened on a non-empty url, any finite sequence of
  \<open>story_chunk\<close> events leaves \<open>streamingText\<close> equal to the concatenation of the
  payloads in arrival order, starting from the empty string; a \<open>graph_data\<close> event never
  changes \<open>streamingText\<close>, whether its payload parses or not.
\<close>

theorem useSSE_streamingText:
  "(u \<noteq> [] \<longrightarrow>
      streamingText (receive parse (useSSE_connect (Some u) st0) (map StoryChunk ds)) = concat ds
      \<and> streamingText (receive parse (useSSE_connect (Some u) st0) (map StoryChunk ds))
          = foldl (@) [] ds)
   \<and> streamingText (dispatch parse st (GraphDataEvent d)) = streamingText st"
proof (intro conjI impI)
  assume u: "u \<noteq> []"
  let ?c = "useSSE_connect (Some u) st0 :: 'a sse_state"
  have o: "sourceOpen ?c" and e: "streamingText ?c = []"
    using u by (simp_all add: useSSE_connect_def)
  show 1: "streamingText (receive parse ?c (map StoryChunk ds)) = concat ds"
    using receive_chunks_append [OF o, of parse ds] e by simp
  show "streamingText (receive parse ?c (map StoryChunk ds)) = foldl (@) [] ds"
    using 1 foldl_append_concat [of "[]" ds] by simp
next
  show "streamingText (dispatch parse st (GraphDataEvent d)) = streamingText st"
    by (rule dispatch_graph_text)
qed

theorem useSSE_streamingText_witness:
  "streamingText (receive (\<lambda>s. None :: unit option)
       (useSSE_connect (Some ''/api/stream_story'') useSSE_initial)
       (map StoryChunk [''Once '', ''upon '', ''a time''])) = ''Once upon a time''
   \<and> streamingText (dispatch (\<lambda>s. None :: unit option)
         \<lparr>streamingText = ''Once '', graphData = None, isStreaming = True, error = None,
          sourceOpen = True\<rparr> (GraphDataEvent ''{}'')) = ''Once ''"
  using useSSE_streamingText [of "''/api/stream_story''" "\<lambda>s. None :: unit option"
      useSSE_initial "[''Once '', ''upon '', ''a time'']"
      "\<lparr>streamingText = ''Once '', graphData = None, isStreaming = True, error = None,
        sourceOpen = True\<rparr>" "''{}''"]
  by simp
section \<open>Properties of the generic dropdown\<close>

lemma handleKeyDown_selects_in_bounds:
  "snd (handleKeyDown items st k) = Some x \<Longrightarrow>
     k = Enter \<and> 0 \<le> highlightedIndex st \<and> highlightedIndex st < int (length items)
     \<and> x = items ! nat (highlightedIndex st)"
  by (cases k) (auto simp: handleSelect_def split: if_splits)

lemma handleKeyDown_selects_member:
  assumes "snd (handleKeyDown items st k) = Some x"
  shows "x \<in> set items"
proof -
  note b = handleKeyDown_selects_in_bounds [OF assms]
  then have "nat (highlightedIndex st) < length items" by linarith
  then show ?thesis using b by simp
qed

lemma keydown_selects_member: "snd (keydown items st k) = Some x \<Longrightarrow> x \<in> set items"
  by (auto simp: keydown_def dest: handleKeyDown_selects_member split: if_splits)

lemma clickItem_selects_member: "snd (clickItem items i st) = Some x \<Longrightarrow> x \<in> set items"
  by (auto simp: clickItem_def handleSelect_def split: if_splits)

lemma act_selects_member: "snd (act items st a) = Some x \<Longrightarrow> x \<in> set items"
  by (cases a) (auto simp: act_def dest: keydown_selects_member clickItem_selects_member)

lemma dropdown_step_open_nonneg:
  assumes "isOpen st \<longrightarrow> 0 \<le> highlightedIndex st"
  shows "isOpen (dropdown_step getKey st ev) \<longrightarrow> 0 \<le> highlightedIndex (dropdown_step getKey st ev)"
proof (cases ev)
  case (Toggle disabled selectedItem items)
  then show ?thesis
    using assms by (simp add: handleToggle_def Let_def)
next
  case (KeyDown items k)
  then show ?thesis
    using assms by (cases k) (auto simp: keydown_def handleSelect_def)
next
  case (ClickItem items i)
  then show ?thesis
    using assms by (simp add: clickItem_def handleSelect_def)
next
  case ClickOutside
  then show ?thesis by (simp add: handleClickOutside_def)
next
  case (MouseEnter items i)
  then show ?thesis
    using assms by (simp add: mouseEnter_def)
qed

lemma dropdown_run_open_nonneg:
  "isOpen (dropdown_run getKey evs) \<longrightarrow> 0 \<le> highlightedIndex (dropdown_run getKey evs)"
proof (induction evs rule: rev_induct)
  case Nil
  show ?case by (simp add: dropdown_run_def BaseDropdown_initial_def)
next
  case (snoc ev evs)
  have "dropdown_run getKey (evs @ [ev]) = dropdown_step getKey (dropdown_run getKey evs) ev"
    by (simp add: dropdown_run_def)
  then show ?case
    using dropdown_step_open_nonneg [OF snoc.IH, of getKey ev] by simp
qed

lemma keydown_range:
  assumes "isOpen st \<longrightarrow> 0 \<le> highlightedIndex st" and "index_in_range items st"
  shows "index_in_range items (fst (keydown items st k))"
proof (cases "isOpen st")
  case False
  then show ?thesis using assms(2) by (simp add: keydown_def)
next
  case True
  with assms have "0 \<le> highlightedIndex st" "highlightedIndex st \<le> int (length items) - 1"
    by (simp_all add: index_in_range_def)
  then show ?thesis
    using True by (cases k) (auto simp: keydown_def handleSelect_def index_in_range_def)
qed

text \<open>
  C8. In every state that the component reaches, a key pressed with the highlighted
  index in \<open>[-1, items.length - 1]\<close> leaves it in that range, for every list of items,
  the empty one too: an open dropdown has an index of at least 0 (opening sets it, and
  every write of \<open>-1\<close> also closes), and a closed one has no key listener.
  \<open>ArrowDown\<close> never moves the index past \<open>items.length - 1\<close>, \<open>ArrowUp\<close> never gives
  an index below 0, and \<open>onSelect\<close> is called only by \<open>Enter\<close>, only when
  \<open>0 \<le> highlightedIndex < items.length\<close>, and with \<open>items[highlightedIndex]\<close>, an item
  of the list; on the empty list no key selects.
\<close>

theorem BaseDropdown_keyboard_preserves_range:
  "(index_in_range items (dropdown_run getKey evs) \<longrightarrow>
      index_in_range items (fst (keydown items (dropdown_run getKey evs) k)))
   \<and> (isOpen (dropdown_run getKey evs) \<longrightarrow> 0 \<le> highlightedIndex (dropdown_run getKey evs))
   \<and> (index_in_range items (dropdown_run getKey evs) \<longrightarrow>
      highlightedIndex (fst (keydown items (dropdown_run getKey evs) ArrowDown))
        \<le> int (length items) - 1)
   \<and> (index_in_range items st \<longrightarrow>
      highlightedIndex (fst (handleKeyDown items st ArrowDown)) \<le> int (length items) - 1)
   \<and> 0 \<le> highlightedIndex (fst (handleKeyDown items st ArrowUp))
   \<and> (snd (handleKeyDown items st k) = Some x \<longrightarrow>
      k = Enter \<and> 0 \<le> highlightedIndex st \<and> highlightedIndex st < int (length items)
      \<and> x = items ! nat (highlightedIndex st) \<and> x \<in> set items)
   \<and> (snd (keydown items st k) = Some x \<longrightarrow> isOpen st \<and> x \<in> set items)
   \<and> snd (handleKeyDown ([] :: 'a list) st k) = None"
proof -
  let ?s = "dropdown_run getKey evs"
  have 0: "isOpen ?s \<longrightarrow> 0 \<le> highlightedIndex ?s"
    by (rule dropdown_run_open_nonneg)
  have 1: "index_in_range items ?s \<longrightarrow> index_in_range items (fst (keydown items ?s k))"
    using keydown_range [OF 0] by blast
  have 2: "index_in_range items ?s \<longrightarrow>
      highlightedIndex (fst (keydown items ?s ArrowDown)) \<le> int (length items) - 1"
    using keydown_range [OF 0, of items ArrowDown] by (simp add: index_in_range_def)
  have 3: "index_in_range items st \<longrightarrow>
      highlightedIndex (fst (handleKeyDown items st ArrowDown)) \<le> int (length items) - 1"
    by (simp add: index_in_range_def)
  have 4: "0 \<le> highlightedIndex (fst (handleKeyDown items st ArrowUp))"
    by simp
  have 6: "snd (handleKeyDown items st k) = Some x \<longrightarrow>
      k = Enter \<and> 0 \<le> highlightedIndex st \<and> highlightedIndex st < int (length items)
      \<and> x = items ! nat (highlightedIndex st) \<and> x \<in> set items"
    using handleKeyDown_selects_in_bounds [of items st k x]
      handleKeyDown_selects_member [of items st k x] by blast
  have 7: "snd (keydown items st k) = Some x \<longrightarrow> isOpen st \<and> x \<in> set items"
    using keydown_selects_member [of items st k x] by (auto simp: keydown_def split: if_splits)
  have 8: "snd (handleKeyDown ([] :: 'a list) st k) = None"
    by (cases k) auto
  from 0 1 2 3 4 6 7 8 show ?thesis by blast
qed

theorem BaseDropdown_keyboard_preserves_range_witness:
  "dropdown_run (\<lambda>s. s) [Toggle False None [''a'', ''b''], KeyDown [''a'', ''b''] ArrowDown]
     = \<lparr>isOpen = True, highlightedIndex = 1\<rparr>
   \<and> index_in_range [''a'', ''b'']
       (dropdown_run (\<lambda>s. s) [Toggle False None [''a'', ''b''], KeyDown [''a'', ''b''] ArrowDown])
   \<and> index_in_range [''a'', ''b'']
       (fst (keydown [''a'', ''b'']
          (dropdown_run (\<lambda>s. s) [Toggle False None [''a'', ''b''], KeyDown [''a'', ''b''] ArrowDown])
          Enter))
   \<and> snd (keydown [''a'', ''b''] \<lparr>isOpen = True, highlightedIndex = 1\<rparr> Enter) = Some ''b''
   \<and> ''b'' \<in> set [''a'', ''b'']"
proof -
  let ?evs = "[Toggle False None [''a'', ''b''], KeyDown [''a'', ''b''] ArrowDown]"
  have r: "dropdown_run (\<lambda>s. s) ?evs = \<lparr>isOpen = True, highlightedIndex = 1\<rparr>"
    by (simp add: dropdown_run_def BaseDropdown_initial_def handleToggle_def keydown_def)
  have i: "index_in_range [''a'', ''b''] (dropdown_run (\<lambda>s. s) ?evs)"
    unfolding r by (simp add: index_in_range_def)
  have e: "snd (keydown [''a'', ''b''] \<lparr>isOpen = True, highlightedIndex = 1\<rparr> Enter) = Some ''b''"
    by (simp add: keydown_def handleSelect_def)
  from BaseDropdown_keyboard_preserves_range [of "[''a'', ''b'']" "\<lambda>s. s" ?evs Enter
      "\<lparr>isOpen = True, highlightedIndex = 1\<rparr>" "''b''"] i e
  have "index_in_range [''a'', ''b'']
       (fst (keydown [''a'', ''b''] (dropdown_run (\<lambda>s. s) ?evs) Enter))"
    and "''b'' \<in> set [''a'', ''b'']"
    by blast+
  with r i e show ?thesis by blast
qed

section \<open>Properties of the corpus selector\<close>

text \<open>
  C7. Once the backend's list has arrived, the dropdown is rendered over exactly the
  entries whose \<open>is_active\<close> is true, in the backend's order: an entry is offered iff
  it is in the list and active. Whatever a key or a click selects from the dropdown is an
  active entry of the backend's list; while the list is loading nothing can be selected,
  and after a failed load nothing is offered.
\<close>

theorem CorpusDropdown_offers_active:
  "offered (loadCorpuses (Inr data) st) = Some (filter is_active data)
   \<and> (c \<in> set (corpuses (loadCorpuses (Inr data) st)) \<longleftrightarrow> c \<in> set data \<and> is_active c)
   \<and> (selectCorpus (loadCorpuses (Inr data) st) dd a = Some c \<longrightarrow> c \<in> set data \<and> is_active c)
   \<and> selectCorpus CorpusDropdown_initial dd a = None
   \<and> offered (loadCorpuses (Inl err) CorpusDropdown_initial) = Some []"
proof -
  have 1: "offered (loadCorpuses (Inr data) st) = Some (filter is_active data)"
    by (simp add: offered_def loadCorpuses_def)
  have 2: "c \<in> set (corpuses (loadCorpuses (Inr data) st)) \<longleftrightarrow> c \<in> set data \<and> is_active c"
    by (auto simp: loadCorpuses_def)
  have 3: "selectCorpus (loadCorpuses (Inr data) st) dd a = Some c \<longrightarrow> c \<in> set data \<and> is_active c"
  proof
    assume "selectCorpus (loadCorpuses (Inr data) st) dd a = Some c"
    then have "snd (act (filter is_active data) dd a) = Some c"
      by (simp add: selectCorpus_def 1)
    then have "c \<in> set (filter is_active data)"
      by (rule act_selects_member)
    then show "c \<in> set data \<and> is_active c" by simp
  qed
  have 4: "selectCorpus CorpusDropdown_initial dd a = None"
    by (simp add: selectCorpus_def offered_def CorpusDropdown_initial_def)
  have 5: "offered (loadCorpuses (Inl err) CorpusDropdown_initial) = Some []"
    by (simp add: offered_def loadCorpuses_def CorpusDropdown_initial_def)
  from 1 2 3 4 5 show ?thesis by blast
qed

theorem CorpusDropdown_offers_active_witness:
  "offered (loadCorpuses
      (Inr [\<lparr>name = ''fable'', display_name = ''Fable'', description = [], is_active = True,
              chunk_count = 3, last_processed = None, needs_rebuild = False,
              missing_components = []\<rparr>,
            \<lparr>name = ''draft'', display_name = ''Draft'', description = [], is_active = False,
              chunk_count = 0, last_processed = None, needs_rebuild = True,
              missing_components = [''chunks'']\<rparr>]) CorpusDropdown_initial)
     = Some [\<lparr>name = ''fable'', display_name = ''Fable'', description = [], is_active = True,
              chunk_count = 3, last_processed = None, needs_rebuild = False,
              missing_components = []\<rparr>]
   \<and> selectCorpus (loadCorpuses
      (Inr [\<lparr>name = ''fable'', display_name = ''Fable'', description = [], is_active = True,
              chunk_count = 3, last_processed = None, needs_rebuild = False,
              missing_components = []\<rparr>,
            \<lparr>name = ''draft'', display_name = ''Draft'', description = [], is_active = False,
              chunk_count = 0, last_processed = None, needs_rebuild = True,
              missing_components = [''chunks'']\<rparr>]) CorpusDropdown_initial)
        \<lparr>isOpen = True, highlightedIndex = 0\<rparr> (Key Enter)
     = Some \<lparr>name = ''fable'', display_name = ''Fable'', description = [], is_active = True,
              chunk_count = 3, last_processed = None, needs_rebuild = False,
              missing_components = []\<rparr>
   \<and> is_active \<lparr>name = ''fable'', display_name = ''Fable'', description = [], is_active = True,
              chunk_count = 3, last_processed = None, needs_rebuild = False,
              missing_components = []\<rparr>"
  using CorpusDropdown_offers_active
    [of "[\<lparr>name = ''fable'', display_name = ''Fable'', description = [], is_active = True,
              chunk_count = 3, last_processed = None, needs_rebuild = False,
              missing_components = []\<rparr>,
            \<lparr>name = ''draft'', display_name = ''Draft'', description = [], is_active = False,
              chunk_count = 0, last_processed = None, needs_rebuild = True,
              missing_components = [''chunks'']\<rparr>]"
        CorpusDropdown_initial
        "\<lparr>name = ''fable'', display_name = ''Fable'', description = [], is_active = True,
              chunk_count = 3, last_processed = None, needs_rebuild = False,
              missing_components = []\<rparr>"
        "\<lparr>isOpen = True, highlightedIndex = 0\<rparr>" "Key Enter"]
  by (simp add: selectCorpus_def offered_def loadCorpuses_def CorpusDropdown_initial_def
      act_def keydown_def handleSelect_def)

section \<open>Properties of the URL builder\<close>

lemma foldl_append_entries:
  "searchParams (foldl (\<lambda>u (key, val). searchParams_append u key (String_js val)) url entries)
     = searchParams url @ map (\<lambda>(key, val). (key, String_js val)) entries"
  by (induction entries arbitrary: url) (auto simp: searchParams_append_def)

lemma foldl_append_href:
  "href_without_query (foldl (\<lambda>u (key, val). searchParams_append u key (String_js val)) url entries)
     = href_without_query url"
  by (induction entries arbitrary: url) (auto simp: searchParams_append_def)

lemma sublist_join: "x \<in> set xs \<Longrightarrow> sublist x (join sep xs)"
proof (induction sep xs rule: join.induct)
  case (3 sep x' y ys)
  show ?case
  proof (cases "x = x'")
    case True
    then show ?thesis by simp
  next
    case False
    with 3 have "sublist x (join sep (y # ys))" by simp
    then show ?thesis
      by (metis append.assoc join.simps(3) sublist_append)
  qed
qed simp_all

lemma buildURL_searchParams:
  "searchParams (buildURL_url origin endpoint (Some params))
     = map (\<lambda>(key, val). (key, String_js val)) params"
  by (simp add: buildURL_url_def new_URL_def foldl_append_entries)

lemma buildURL_string:
  "buildURL origin endpoint (Some params) =
     origin @ endpoint @
     (if params = [] then []
      else CHR ''?'' # urlencoded_serialize (map (\<lambda>(key, val). (key, String_js val)) params))"
  by (simp add: buildURL_def URL_toString_def buildURL_searchParams)
     (simp add: buildURL_url_def new_URL_def foldl_append_href)

lemma buildURL_contains_entry:
  assumes "(key, val) \<in> set params"
  shows "sublist (urlencoded key @ ''='' @ urlencoded (String_js val))
           (buildURL origin endpoint (Some params))"
proof -
  let ?ps = "map (\<lambda>(key, val). (key, String_js val)) params"
  have "(key, String_js val) \<in> set ?ps"
    using assms by force
  then have "urlencoded_pair (key, String_js val) \<in> set (map urlencoded_pair ?ps)"
    by (metis image_eqI set_map)
  then have "sublist (urlencoded_pair (key, String_js val)) (urlencoded_serialize ?ps)"
    unfolding urlencoded_serialize_def by (rule sublist_join)
  then obtain p s where "urlencoded_serialize ?ps = p @ urlencoded_pair (key, String_js val) @ s"
    by (auto simp: sublist_def)
  moreover have "params \<noteq> []" using assms by auto
  ultimately have "buildURL origin endpoint (Some params)
      = (origin @ endpoint @ CHR ''?'' # p) @ urlencoded_pair (key, String_js val) @ s"
    by (simp add: buildURL_string)
  then show ?thesis
    unfolding urlencoded_pair_def fst_conv snd_conv by (metis sublist_appendI)
qed

text \<open>
  C9. \<open>buildURL\<close> appends one query parameter \<open>(key, String(value))\<close> per entry of
  \<open>params\<close>, in order and with none left out, after the endpoint; the URL string holds
  every entry as \<open>key=String(value)\<close> in the form-urlencoded serialization of the query.
  In particular an entry \<open>randomize_retrieval: false\<close> passed to
  \<open>buildStreamStoryURL\<close> gives a URL that contains \<open>randomize_retrieval=false\<close>.
\<close>

theorem buildURL_appends_every_entry:
  "searchParams (buildURL_url origin endpoint (Some params))
     = map (\<lambda>(key, val). (key, String_js val)) params
   \<and> length (searchParams (buildURL_url origin endpoint (Some params))) = length params
   \<and> buildURL origin endpoint (Some params) =
       origin @ endpoint @
       (if params = [] then []
        else CHR ''?'' # urlencoded_serialize (map (\<lambda>(key, val). (key, String_js val)) params))
   \<and> ((key, val) \<in> set params \<longrightarrow>
        sublist (urlencoded key @ ''='' @ urlencoded (String_js val))
          (buildURL origin endpoint (Some params)))
   \<and> ((''randomize_retrieval'', JBoolean False) \<in> set params \<longrightarrow>
        sublist ''randomize_retrieval=false'' (buildStreamStoryURL origin params))"
proof -
  have enc: "urlencoded ''randomize_retrieval'' = ''randomize_retrieval''"
    "urlencoded ''false'' = ''false''"
    by (simp_all add: urlencoded_def urlencoded_byte_def urlencoded_plain_def)
  have r: "(''randomize_retrieval'', JBoolean False) \<in> set params \<longrightarrow>
        sublist ''randomize_retrieval=false'' (buildStreamStoryURL origin params)"
  proof
    assume "(''randomize_retrieval'', JBoolean False) \<in> set params"
    from buildURL_contains_entry [OF this, of origin streamStory]
    show "sublist ''randomize_retrieval=false'' (buildStreamStoryURL origin params)"
      by (simp add: buildStreamStoryURL_def enc)
  qed
  show ?thesis
    using buildURL_searchParams [of origin endpoint params]
      buildURL_string [of origin endpoint params]
      buildURL_contains_entry [of key val params origin endpoint] r
    by simp
qed

theorem buildURL_appends_every_entry_witness:
  "buildStreamStoryURL ''http://localhost:8000''
      [(''prompt'', JString ''a wise old man?''), (''story_length'', JNumber 250),
       (''randomize_retrieval'', JBoolean False)]
     = ''http://localhost:8000/api/stream_story?prompt=a+wise+old+man%3F&story_length=250&randomize_retrieval=false''
   \<and> sublist ''randomize_retrieval=false''
       (buildStreamStoryURL ''http://localhost:8000''
          [(''prompt'', JString ''a wise old man?''), (''story_length'', JNumber 250),
           (''randomize_retrieval'', JBoolean False)])"
  using buildURL_appends_every_entry [of "''http://localhost:8000''" streamStory
      "[(''prompt'', JString ''a wise old man?''), (''story_length'', JNumber 250),
        (''randomize_retrieval'', JBoolean False)]" "''randomize_retrieval''" "JBoolean False"]
  by (auto simp: buildStreamStoryURL_def streamStory_def urlencoded_serialize_def
      urlencoded_pair_def urlencoded_def urlencoded_byte_def urlencoded_plain_def digit_char_def)

section \<open>Properties of Reciprocal Rank Fusion\<close>

lemma accumulate_ids:
  "map cand_chunk_id (accumulate l k cid r cs) =
     (if cid \<in> set (map cand_chunk_id cs) then map cand_chunk_id cs else map cand_chunk_id cs @ [cid])"
  by (induction cs) (auto simp: add_term_def new_candidate_def split: option.splits ranked_list.splits)

lemma accumulate_list_ids_set:
  "cand_chunk_id ` set (accumulate_list l k r ids cs) = cand_chunk_id ` set cs \<union> set ids"
proof (induction ids arbitrary: r cs)
  case Nil
  show ?case by simp
next
  case (Cons a ids)
  show ?case
    using accumulate_ids [of l k a r cs] unfolding accumulate_list.simps Cons.IH
    by (auto simp flip: set_map)
qed

lemma accumulate_list_ids_distinct:
  "distinct (map cand_chunk_id cs) \<Longrightarrow> distinct (map cand_chunk_id (accumulate_list l k r ids cs))"
proof (induction ids arbitrary: r cs)
  case Nil
  then show ?case by simp
next
  case (Cons a ids)
  have "distinct (map cand_chunk_id (accumulate l k a r cs))"
    unfolding accumulate_ids using Cons.prems by auto
  then show ?case
    unfolding accumulate_list.simps by (rule Cons.IH)
qed

lemma find_accumulate:
  "find_candidate x (accumulate l k cid r cs) =
     (if x = cid then Some (step_candidate l k cid r (find_candidate cid cs)) else find_candidate x cs)"
  by (induction cs)
     (auto simp: find_candidate_def step_candidate_def add_term_def new_candidate_def
           split: option.splits ranked_list.splits)

lemma list_rank_step: "list_rank l (step_candidate l k cid r copt) \<noteq> None"
  by (auto simp: step_candidate_def add_term_def new_candidate_def list_rank_def
           split: option.splits ranked_list.splits)

lemma step_ranked: "list_rank l c = Some y \<Longrightarrow> step_candidate l k cid r (Some c) = c"
  by (simp add: step_candidate_def add_term_def)

lemma find_accumulate_list_ranked:
  "find_candidate x cs = Some c \<Longrightarrow> list_rank l c \<noteq> None \<Longrightarrow>
     find_candidate x (accumulate_list l k r ids cs) = Some c"
proof (induction ids arbitrary: r cs)
  case Nil
  then show ?case by simp
next
  case (Cons a ids)
  have "find_candidate x (accumulate l k a r cs) = Some c"
    using Cons.prems by (auto simp: find_accumulate step_ranked)
  then show ?case
    unfolding accumulate_list.simps using Cons.prems(2) by (rule Cons.IH)
qed

lemma rank_from_Suc: "rank_from (Suc r) cid xs = map_option (\<lambda>p. p + r) (rank_in_list cid xs)"
  by (induction xs arbitrary: r) (simp_all add: option.map_comp comp_def)

lemma rank_from_1: "rank_from 1 cid xs = rank_in_list cid xs"
  using rank_from_Suc [of 0 cid xs] by (simp add: option.map_ident)

lemma find_accumulate_list:
  "find_candidate x (accumulate_list l k r ids cs) =
     (case rank_from r x ids of
        None \<Rightarrow> find_candidate x cs
      | Some p \<Rightarrow> Some (step_candidate l k x p (find_candidate x cs)))"
proof (induction ids arbitrary: r cs)
  case Nil
  show ?case by simp
next
  case (Cons a ids)
  show ?case
  proof (cases "a = x")
    case True
    have "find_candidate x (accumulate l k a r cs) = Some (step_candidate l k x r (find_candidate x cs))"
      using True by (simp add: find_accumulate)
    then have "find_candidate x (accumulate_list l k (Suc r) ids (accumulate l k a r cs))
                 = Some (step_candidate l k x r (find_candidate x cs))"
      by (rule find_accumulate_list_ranked) (rule list_rank_step)
    then show ?thesis using True by simp
  next
    case False
    then have "find_candidate x (accumulate l k a r cs) = find_candidate x cs"
      by (auto simp: find_accumulate)
    then show ?thesis
      using False by (simp add: Cons.IH split: option.splits)
  qed
qed

lemma rank_in_list_None: "rank_in_list cid xs = None \<longleftrightarrow> cid \<notin> set xs"
  by (induction xs) auto

lemma find_candidate_Nil: "find_candidate x [] = None"
  by (simp add: find_candidate_def)

lemma find_rrf_fuse:
  "find_candidate x (rrf_fuse k vs ks) =
     (case rank_in_list x vs of
        None \<Rightarrow> (case rank_in_list x ks of None \<Rightarrow> None
                 | Some q \<Rightarrow> Some (new_candidate KeywordList k x q))
      | Some p \<Rightarrow> (case rank_in_list x ks of None \<Rightarrow> Some (new_candidate VectorList k x p)
                 | Some q \<Rightarrow> Some (add_term KeywordList k q (new_candidate VectorList k x p))))"
  by (simp add: rrf_fuse_def find_accumulate_list rank_from_1 [simplified] step_candidate_def
        find_candidate_Nil split: option.splits)

lemma find_candidate_distinct:
  "distinct (map cand_chunk_id cs) \<Longrightarrow> c \<in> set cs \<Longrightarrow> find_candidate (cand_chunk_id c) cs = Some c"
  by (induction cs) (auto simp: find_candidate_def)

lemma rrf_fuse_distinct: "distinct (map cand_chunk_id (rrf_fuse k vs ks))"
  by (simp add: rrf_fuse_def accumulate_list_ids_distinct)

lemma rrf_fuse_ids: "cand_chunk_id ` set (rrf_fuse k vs ks) = set vs \<union> set ks"
  by (simp add: rrf_fuse_def accumulate_list_ids_set)

lemma rrf_fuse_found:
  assumes "find_candidate x (rrf_fuse k vs ks) = Some c"
  shows "cand_score c = spec_fused_score k vs ks x"
    and "cand_vector_rank c = rank_in_list x vs"
    and "cand_keyword_rank c = rank_in_list x ks"
  using assms unfolding find_rrf_fuse
  by (auto simp: spec_fused_score_def list_contribution_def new_candidate_def add_term_def
        list_rank_def rrf_term_def split: option.splits)

lemma rrf_fuse_candidate:
  assumes "c \<in> set (rrf_fuse k vs ks)"
  shows "cand_score c = spec_fused_score k vs ks (cand_chunk_id c)"
    and "cand_vector_rank c = rank_in_list (cand_chunk_id c) vs"
    and "cand_keyword_rank c = rank_in_list (cand_chunk_id c) ks"
proof -
  have f: "find_candidate (cand_chunk_id c) (rrf_fuse k vs ks) = Some c"
    using assms rrf_fuse_distinct by (rule find_candidate_distinct [rotated])
  show "cand_score c = spec_fused_score k vs ks (cand_chunk_id c)"
    and "cand_vector_rank c = rank_in_list (cand_chunk_id c) vs"
    and "cand_keyword_rank c = rank_in_list (cand_chunk_id c) ks"
    using rrf_fuse_found [OF f] by simp_all
qed


lemma rank_in_list_Some:
  "rank_in_list cid xs = Some r \<Longrightarrow>
     0 < r \<and> r \<le> length xs \<and> xs ! (r - 1) = cid \<and> cid \<notin> set (take (r - 1) xs)"
proof (induction xs arbitrary: r)
  case Nil
  then show ?case by simp
next
  case (Cons x xs)
  show ?case
  proof (cases "x = cid")
    case True
    with Cons.prems show ?thesis by simp
  next
    case False
    with Cons.prems obtain r' where r': "rank_in_list cid xs = Some r'" and r: "r = Suc r'"
      by auto
    from Cons.IH [OF r'] have "0 < r'" "r' \<le> length xs" "xs ! (r' - 1) = cid"
      "cid \<notin> set (take (r' - 1) xs)" by simp_all
    then show ?thesis using False r
      by (cases r') simp_all
  qed
qed

text \<open>
  C1. The fused candidates of two ranked lists, with \<open>k = 60\<close>, are one candidate per
  chunk id of either list and no other; the score of each is the sum of
  \<open>1 / (rank + 60)\<close> over the lists that contain the chunk, where \<open>rank\<close> is its
  1-based position in the list, and a list that does not contain the chunk contributes 0;
  a chunk of both lists has both terms. \<open>rank_in_list\<close> is that position: it is absent
  exactly when the list does not contain the id, and otherwise the id stands at that
  position and at none before it.
\<close>

theorem rrf_fused_scores:
  "distinct (map cand_chunk_id (rrf_fuse RRF_K vector_ids keyword_ids))
   \<and> cand_chunk_id ` set (rrf_fuse RRF_K vector_ids keyword_ids) = set vector_ids \<union> set keyword_ids
   \<and> (c \<in> set (rrf_fuse RRF_K vector_ids keyword_ids) \<longrightarrow>
        cand_score c =
          (case rank_in_list (cand_chunk_id c) vector_ids of
             None \<Rightarrow> 0 | Some r \<Rightarrow> 1 / of_nat (r + 60))
          + (case rank_in_list (cand_chunk_id c) keyword_ids of
               None \<Rightarrow> 0 | Some r \<Rightarrow> 1 / of_nat (r + 60)))
   \<and> (rank_in_list cid xs = None \<longleftrightarrow> cid \<notin> set xs)
   \<and> (rank_in_list cid xs = Some r \<longrightarrow>
        0 < r \<and> r \<le> length xs \<and> xs ! (r - 1) = cid \<and> cid \<notin> set (take (r - 1) xs))"
proof -
  have s: "c \<in> set (rrf_fuse RRF_K vector_ids keyword_ids) \<longrightarrow>
        cand_score c =
          (case rank_in_list (cand_chunk_id c) vector_ids of
             None \<Rightarrow> 0 | Some r \<Rightarrow> 1 / of_nat (r + 60))
          + (case rank_in_list (cand_chunk_id c) keyword_ids of
               None \<Rightarrow> 0 | Some r \<Rightarrow> 1 / of_nat (r + 60))"
    using rrf_fuse_candidate(1) [of c RRF_K vector_ids keyword_ids]
    by (simp add: spec_fused_score_def list_contribution_def RRF_K_def)
  show ?thesis
    using s rrf_fuse_distinct [of RRF_K vector_ids keyword_ids]
      rrf_fuse_ids [of RRF_K vector_ids keyword_ids]
      rank_in_list_None [of cid xs] rank_in_list_Some [of cid xs r]
    by blast
qed

theorem rrf_fused_scores_witness:
  "map (\<lambda>c. (cand_chunk_id c, cand_score c))
       (rrf_fuse RRF_K [''c1'', ''c2'', ''c3''] [''c3'', ''c1'', ''c4''])
     = [(''c1'', 1 / 61 + 1 / 62), (''c2'', 1 / 62), (''c3'', 1 / 63 + 1 / 61), (''c4'', 1 / 63)]
   \<and> \<lparr>cand_chunk_id = ''c1'', cand_score = 1 / 61 + 1 / 62,
       cand_vector_rank = Some 1, cand_keyword_rank = Some 2\<rparr>
       \<in> set (rrf_fuse RRF_K [''c1'', ''c2'', ''c3''] [''c3'', ''c1'', ''c4''])
   \<and> rank_in_list ''c1'' [''c3'', ''c1'', ''c4''] = Some 2
   \<and> rank_in_list ''c2'' [''c3'', ''c1'', ''c4''] = None"
  using rrf_fused_scores [of "[''c1'', ''c2'', ''c3'']" "[''c3'', ''c1'', ''c4'']"
      "\<lparr>cand_chunk_id = ''c1'', cand_score = 1 / 61 + 1 / 62,
        cand_vector_rank = Some 1, cand_keyword_rank = Some 2\<rparr>"
      "''c1''" "[''c3'', ''c1'', ''c4'']" 2]
  by (simp add: rrf_fuse_def RRF_K_def new_candidate_def add_term_def list_rank_def rrf_term_def)

section \<open>Properties of the ranking\<close>

lemma mset_insert_ranked: "mset (insert_ranked chunks x ys) = add_mset x (mset ys)"
  by (induction ys) simp_all

lemma mset_foldl_insert:
  "mset (foldl (\<lambda>acc x. insert_ranked chunks x acc) acc cs) = mset acc + mset cs"
  by (induction cs arbitrary: acc) (simp_all add: mset_insert_ranked)

lemma mset_rank_candidates: "mset (rank_candidates chunks cs) = mset cs"
  by (simp add: rank_candidates_def mset_foldl_insert)

lemma spec_order_total: "\<not> ranks_before chunks x y \<Longrightarrow> spec_order chunks y x"
  by (auto simp: ranks_before_def spec_order_def)

lemma ranks_before_spec_order: "ranks_before chunks x y \<Longrightarrow> spec_order chunks x y"
  by (auto simp: ranks_before_def spec_order_def)

lemma ranks_before_trans:
  "ranks_before chunks x y \<Longrightarrow> spec_order chunks y z \<Longrightarrow> spec_order chunks x z"
  by (auto simp: ranks_before_def spec_order_def)

lemma set_insert_ranked: "set (insert_ranked chunks x ys) = insert x (set ys)"
  by (induction ys) auto

lemma sorted_insert_ranked:
  "sorted_wrt (spec_order chunks) ys \<Longrightarrow> sorted_wrt (spec_order chunks) (insert_ranked chunks x ys)"
proof (induction ys)
  case Nil
  show ?case by simp
next
  case (Cons y ys)
  show ?case
  proof (cases "ranks_before chunks x y")
    case True
    have "spec_order chunks x z" if "z \<in> set (y # ys)" for z
    proof (cases "z = y")
      case True
      then show ?thesis using \<open>ranks_before chunks x y\<close> by (simp add: ranks_before_spec_order)
    next
      case False
      with that Cons.prems have "spec_order chunks y z" by auto
      with \<open>ranks_before chunks x y\<close> show ?thesis by (rule ranks_before_trans)
    qed
    then show ?thesis using True Cons.prems by simp
  next
    case False
    then have "spec_order chunks y x" by (rule spec_order_total)
    then show ?thesis using False Cons by (auto simp: set_insert_ranked)
  qed
qed

lemma sorted_foldl_insert:
  "sorted_wrt (spec_order chunks) acc \<Longrightarrow>
     sorted_wrt (spec_order chunks) (foldl (\<lambda>acc x. insert_ranked chunks x acc) acc cs)"
  by (induction cs arbitrary: acc) (simp_all add: sorted_insert_ranked)

lemma sorted_rank_candidates: "sorted_wrt (spec_order chunks) (rank_candidates chunks cs)"
  by (simp add: rank_candidates_def sorted_foldl_insert)


lemma length_rank_candidates: "length (rank_candidates chunks cs) = length cs"
  using mset_rank_candidates [of chunks cs] by (metis size_mset)

lemma set_rank_candidates: "set (rank_candidates chunks cs) = set cs"
  using mset_rank_candidates [of chunks cs] by (metis set_mset_mset)

lemma length_rrf_fuse: "length (rrf_fuse k vs ks) = card (set vs \<union> set ks)"
proof -
  have "card (set (map cand_chunk_id (rrf_fuse k vs ks))) = length (map cand_chunk_id (rrf_fuse k vs ks))"
    using rrf_fuse_distinct by (rule distinct_card)
  then show ?thesis
    by (simp add: rrf_fuse_ids)
qed

lemma fuse_and_rank_member:
  assumes "r \<in> set (fuse_and_rank chunks top_k vs ks)"
  shows "vector_rank r = rank_in_list (result_chunk_id r) vs"
    and "keyword_rank r = rank_in_list (result_chunk_id r) ks"
    and "fused_score r = spec_fused_score RRF_K vs ks (result_chunk_id r)"
    and "result_chunk_id r \<in> set vs \<union> set ks"
proof -
  from assms obtain c where c: "c \<in> set (take top_k (rank_candidates chunks (rrf_fuse RRF_K vs ks)))"
    and r: "r = attach_text chunks c"
    by (auto simp: fuse_and_rank_def)
  from c have "c \<in> set (rank_candidates chunks (rrf_fuse RRF_K vs ks))"
    by (rule in_set_takeD)
  then have m: "c \<in> set (rrf_fuse RRF_K vs ks)"
    by (simp add: set_rank_candidates)
  show "vector_rank r = rank_in_list (result_chunk_id r) vs"
    and "keyword_rank r = rank_in_list (result_chunk_id r) ks"
    and "fused_score r = spec_fused_score RRF_K vs ks (result_chunk_id r)"
    using rrf_fuse_candidate [OF m] by (simp_all add: r attach_text_def)
  show "result_chunk_id r \<in> set vs \<union> set ks"
    using m rrf_fuse_ids [of RRF_K vs ks] by (auto simp: r attach_text_def)
qed

text \<open>
  C2. The returned sequence is the fused candidates sorted and truncated to \<open>top_k\<close>:
  the sorted candidates are a rearrangement of the fused ones, and every candidate stands
  before every later one in the order of the spec (a higher fused score; on a tie both
  lists before one list; then chunk insertion order). The results are the first
  \<open>top_k\<close> of them, \<open>min top_k n\<close> for \<open>n\<close> distinct candidate ids, each with its
  \<open>vector_rank\<close> and \<open>keyword_rank\<close> (absent when the chunk is not in that list) and
  its fused score. For the vector list \<open>[c2, c1]\<close>, the keyword list \<open>[c1, c3]\<close> and
  \<open>top_k = 2\<close> the order is \<open>[c1, c2]\<close>, without \<open>c3\<close>.
\<close>

theorem fuse_and_rank_sorted_truncated:
  "mset (rank_candidates chunks (rrf_fuse RRF_K vector_ids keyword_ids))
     = mset (rrf_fuse RRF_K vector_ids keyword_ids)
   \<and> sorted_wrt (spec_order chunks) (rank_candidates chunks (rrf_fuse RRF_K vector_ids keyword_ids))
   \<and> map result_chunk_id (fuse_and_rank chunks top_k vector_ids keyword_ids)
       = take top_k (map cand_chunk_id
           (rank_candidates chunks (rrf_fuse RRF_K vector_ids keyword_ids)))
   \<and> map fused_score (fuse_and_rank chunks top_k vector_ids keyword_ids)
       = take top_k (map cand_score
           (rank_candidates chunks (rrf_fuse RRF_K vector_ids keyword_ids)))
   \<and> length (fuse_and_rank chunks top_k vector_ids keyword_ids)
       = min top_k (card (set vector_ids \<union> set keyword_ids))
   \<and> (r \<in> set (fuse_and_rank chunks top_k vector_ids keyword_ids) \<longrightarrow>
        vector_rank r = rank_in_list (result_chunk_id r) vector_ids
        \<and> keyword_rank r = rank_in_list (result_chunk_id r) keyword_ids
        \<and> (vector_rank r = None \<longleftrightarrow> result_chunk_id r \<notin> set vector_ids)
        \<and> (keyword_rank r = None \<longleftrightarrow> result_chunk_id r \<notin> set keyword_ids)
        \<and> fused_score r = spec_fused_score RRF_K vector_ids keyword_ids (result_chunk_id r))
   \<and> map result_chunk_id (fuse_and_rank fable 2 [''c2'', ''c1''] [''c1'', ''c3'']) = [''c1'', ''c2'']"
proof -
  let ?ranked = "rank_candidates chunks (rrf_fuse RRF_K vector_ids keyword_ids)"
  have 1: "mset ?ranked = mset (rrf_fuse RRF_K vector_ids keyword_ids)"
    by (rule mset_rank_candidates)
  have 2: "sorted_wrt (spec_order chunks) ?ranked"
    by (rule sorted_rank_candidates)
  have 3: "map result_chunk_id (fuse_and_rank chunks top_k vector_ids keyword_ids)
       = take top_k (map cand_chunk_id ?ranked)"
    by (simp add: fuse_and_rank_def attach_text_def comp_def take_map)
  have 4: "map fused_score (fuse_and_rank chunks top_k vector_ids keyword_ids)
       = take top_k (map cand_score ?ranked)"
    by (simp add: fuse_and_rank_def attach_text_def comp_def take_map)
  have 5: "length (fuse_and_rank chunks top_k vector_ids keyword_ids)
       = min top_k (card (set vector_ids \<union> set keyword_ids))"
    by (simp add: fuse_and_rank_def length_rank_candidates length_rrf_fuse min.commute)
  have 6: "r \<in> set (fuse_and_rank chunks top_k vector_ids keyword_ids) \<longrightarrow>
        vector_rank r = rank_in_list (result_chunk_id r) vector_ids
        \<and> keyword_rank r = rank_in_list (result_chunk_id r) keyword_ids
        \<and> (vector_rank r = None \<longleftrightarrow> result_chunk_id r \<notin> set vector_ids)
        \<and> (keyword_rank r = None \<longleftrightarrow> result_chunk_id r \<notin> set keyword_ids)
        \<and> fused_score r = spec_fused_score RRF_K vector_ids keyword_ids (result_chunk_id r)"
    using fuse_and_rank_member(1,2,3) [of r chunks top_k vector_ids keyword_ids]
    by (simp add: rank_in_list_None)
  have 7: "map result_chunk_id (fuse_and_rank fable 2 [''c2'', ''c1''] [''c1'', ''c3'']) = [''c1'', ''c2'']"
    by (simp add: fuse_and_rank_def rrf_fuse_def RRF_K_def new_candidate_def add_term_def
        list_rank_def rrf_term_def rank_candidates_def ranks_before_def in_both_def fable_def
        attach_text_def)
  from 1 2 3 4 5 6 7 show ?thesis by blast
qed

theorem fuse_and_rank_sorted_truncated_witness:
  "\<lparr>result_chunk_id = ''c2'', result_text = ''two'', fused_score = 1 / 61,
     vector_rank = Some 1, keyword_rank = None\<rparr>
     \<in> set (fuse_and_rank fable 2 [''c2'', ''c1''] [''c1'', ''c3''])
   \<and> keyword_rank \<lparr>result_chunk_id = ''c2'', result_text = ''two'', fused_score = 1 / 61,
       vector_rank = Some 1, keyword_rank = None\<rparr> = rank_in_list ''c2'' [''c1'', ''c3'']
   \<and> fuse_and_rank fable 2 [''c2'', ''c1''] [''c1'', ''c3''] =
       [\<lparr>result_chunk_id = ''c1'', result_text = ''one'', fused_score = 1 / 62 + 1 / 61,
         vector_rank = Some 2, keyword_rank = Some 1\<rparr>,
        \<lparr>result_chunk_id = ''c2'', result_text = ''two'', fused_score = 1 / 61,
         vector_rank = Some 1, keyword_rank = None\<rparr>]"
proof -
  let ?r = "\<lparr>result_chunk_id = ''c2'', result_text = ''two'', fused_score = 1 / 61,
     vector_rank = Some 1, keyword_rank = None\<rparr>"
  have e: "fuse_and_rank fable 2 [''c2'', ''c1''] [''c1'', ''c3''] =
       [\<lparr>result_chunk_id = ''c1'', result_text = ''one'', fused_score = 1 / 62 + 1 / 61,
         vector_rank = Some 2, keyword_rank = Some 1\<rparr>, ?r]"
    by (simp add: fuse_and_rank_def rrf_fuse_def RRF_K_def new_candidate_def add_term_def
        list_rank_def rrf_term_def rank_candidates_def ranks_before_def in_both_def fable_def
        attach_text_def)
  have m: "?r \<in> set (fuse_and_rank fable 2 [''c2'', ''c1''] [''c1'', ''c3''])"
    unfolding e by simp
  from fuse_and_rank_sorted_truncated [of fable "[''c2'', ''c1'']" "[''c1'', ''c3'']" 2 ?r] m
  have "keyword_rank ?r = rank_in_list (result_chunk_id ?r) [''c1'', ''c3'']"
    by blast
  then have "keyword_rank ?r = rank_in_list ''c2'' [''c1'', ''c3'']"
    by simp
  with m e show ?thesis by blast
qed

section \<open>Properties of the completeness gate\<close>

lemma is_complete_present:
  "is_complete a \<Longrightarrow>
     \<exists>cs rs ks. chunk_files a = Some cs \<and> vector_records a = Some rs \<and> keyword_index_ids a = Some ks"
  by (auto simp: is_complete_def missing_components_of_def compute_status_def split: if_splits)

lemma missing_Nil_iff:
  "missing_components_of (compute_status a) = [] \<longleftrightarrow>
     chunk_files a \<noteq> None \<and> vector_records a \<noteq> None \<and> keyword_index_ids a \<noteq> None"
  by (auto simp: missing_components_of_def compute_status_def)

lemma missing_components_absent:
  "c \<in> set (missing_components_of (compute_status a)) \<longleftrightarrow> \<not> component_present a c"
  by (cases c) (auto simp: missing_components_of_def compute_status_def component_present_def)

lemma retrieve_Inr_iff:
  "(\<exists>rs. retrieve clients registry disk nm q top_k = Inr rs) \<longleftrightarrow>
     (\<exists>e. registry_get registry nm = Some e \<and> entry_is_active e) \<and> is_complete (disk nm)"
  by (auto simp: retrieve_def Let_def dest!: is_complete_present split: option.splits)

lemma retrieve_Inl:
  "retrieve clients registry disk nm q top_k = Inl err \<Longrightarrow>
     err = CorpusUnavailableError nm (missing_components_of (compute_status (disk nm)))"
  by (auto simp: retrieve_def Let_def split: option.splits if_splits)

lemma retrieve_vector_absent:
  "chunk_files (disk nm) \<noteq> None \<Longrightarrow> vector_records (disk nm) = None \<Longrightarrow>
   keyword_index_ids (disk nm) \<noteq> None \<Longrightarrow>
     retrieve clients registry disk nm q top_k = Inl (CorpusUnavailableError nm [VectorIndex])"
  by (auto simp: retrieve_def Let_def is_complete_def missing_components_of_def
        compute_status_def split: option.splits)

text \<open>
  C5. \<open>retrieve\<close> returns results only for a corpus name that the registry resolves
  to an active entry and whose three components are all present (it returns results
  exactly when, in addition, the indexes are consistent with the chunks); in every other
  case it fails with \<open>CorpusUnavailableError\<close>, whose component list is exactly the
  components that are absent. With the vector index absent and the chunks and the keyword
  index present, the error names \<open>vector_index\<close> and nothing else, whatever the registry
  holds.
\<close>

theorem retrieve_completeness_gate:
  "(retrieve clients registry disk nm q top_k = Inr rs \<longrightarrow>
      (\<exists>e. registry_get registry nm = Some e \<and> entry_name e = nm \<and> entry_is_active e)
      \<and> component_present (disk nm) ChunksComponent
      \<and> component_present (disk nm) VectorIndex
      \<and> component_present (disk nm) KeywordIndex)
   \<and> ((\<exists>rs'. retrieve clients registry disk nm q top_k = Inr rs') \<longleftrightarrow>
        (\<exists>e. registry_get registry nm = Some e \<and> entry_is_active e) \<and> is_complete (disk nm))
   \<and> (\<not> ((\<exists>e. registry_get registry nm = Some e \<and> entry_is_active e)
          \<and> component_present (disk nm) ChunksComponent
          \<and> component_present (disk nm) VectorIndex
          \<and> component_present (disk nm) KeywordIndex) \<longrightarrow>
        (\<exists>missing. retrieve clients registry disk nm q top_k
                      = Inl (CorpusUnavailableError nm missing)
                    \<and> (\<forall>c. c \<in> set missing \<longleftrightarrow> \<not> component_present (disk nm) c)))
   \<and> (retrieve clients registry disk nm q top_k = Inl err \<longrightarrow>
        (\<exists>missing. err = CorpusUnavailableError nm missing
                    \<and> (\<forall>c. c \<in> set missing \<longleftrightarrow> \<not> component_present (disk nm) c)))
   \<and> (component_present (disk nm) ChunksComponent
       \<and> \<not> component_present (disk nm) VectorIndex
       \<and> component_present (disk nm) KeywordIndex \<longrightarrow>
        retrieve clients registry disk nm q top_k = Inl (CorpusUnavailableError nm [VectorIndex]))"
proof -
  let ?ok = "(\<exists>e. registry_get registry nm = Some e \<and> entry_is_active e)"
  let ?all = "component_present (disk nm) ChunksComponent
          \<and> component_present (disk nm) VectorIndex
          \<and> component_present (disk nm) KeywordIndex"
  have pres: "is_complete (disk nm) \<Longrightarrow> ?all"
    by (auto simp: component_present_def dest: is_complete_present)
  have nm: "registry_get registry nm = Some e \<Longrightarrow> entry_name e = nm" for e
    by (auto simp: registry_get_def dest: find_Some_iff [THEN iffD1])
  have 1: "retrieve clients registry disk nm q top_k = Inr rs \<longrightarrow>
      (\<exists>e. registry_get registry nm = Some e \<and> entry_name e = nm \<and> entry_is_active e) \<and> ?all"
    using retrieve_Inr_iff [of clients registry disk nm q top_k] pres nm by blast
  have 2: "(\<exists>rs'. retrieve clients registry disk nm q top_k = Inr rs') \<longleftrightarrow> ?ok \<and> is_complete (disk nm)"
    by (rule retrieve_Inr_iff)
  have 4: "retrieve clients registry disk nm q top_k = Inl err \<longrightarrow>
        (\<exists>missing. err = CorpusUnavailableError nm missing
                    \<and> (\<forall>c. c \<in> set missing \<longleftrightarrow> \<not> component_present (disk nm) c))"
  proof
    assume "retrieve clients registry disk nm q top_k = Inl err"
    then have "err = CorpusUnavailableError nm (missing_components_of (compute_status (disk nm)))"
      by (rule retrieve_Inl)
    then show "\<exists>missing. err = CorpusUnavailableError nm missing
                    \<and> (\<forall>c. c \<in> set missing \<longleftrightarrow> \<not> component_present (disk nm) c)"
      by (simp add: missing_components_absent)
  qed
  have 3: "\<not> (?ok \<and> ?all) \<longrightarrow>
        (\<exists>missing. retrieve clients registry disk nm q top_k
                      = Inl (CorpusUnavailableError nm missing)
                    \<and> (\<forall>c. c \<in> set missing \<longleftrightarrow> \<not> component_present (disk nm) c))"
  proof
    assume n: "\<not> (?ok \<and> ?all)"
    have "\<not> (\<exists>rs'. retrieve clients registry disk nm q top_k = Inr rs')"
      using n 2 pres by blast
    then obtain e' where e: "retrieve clients registry disk nm q top_k = Inl e'"
      by (cases "retrieve clients registry disk nm q top_k") auto
    then have "e' = CorpusUnavailableError nm (missing_components_of (compute_status (disk nm)))"
      by (rule retrieve_Inl)
    with e show "\<exists>missing. retrieve clients registry disk nm q top_k
                      = Inl (CorpusUnavailableError nm missing)
                    \<and> (\<forall>c. c \<in> set missing \<longleftrightarrow> \<not> component_present (disk nm) c)"
      by (simp add: missing_components_absent)
  qed
  have 5: "component_present (disk nm) ChunksComponent
       \<and> \<not> component_present (disk nm) VectorIndex
       \<and> component_present (disk nm) KeywordIndex \<longrightarrow>
        retrieve clients registry disk nm q top_k = Inl (CorpusUnavailableError nm [VectorIndex])"
    using retrieve_vector_absent [of disk nm clients registry q top_k]
    by (simp add: component_present_def)
  from 1 2 3 4 5 show ?thesis by blast
qed

theorem retrieve_completeness_gate_witness:
  "retrieve \<lparr>embed_query = (\<lambda>q. ()), vector_query = (\<lambda>rs v n. map fst rs),
             keyword_query = (\<lambda>ks cs q n. ks)\<rparr>
      [\<lparr>entry_name = ''fable'', entry_is_active = True\<rparr>]
      (\<lambda>n. \<lparr>chunk_files = Some fable, vector_records = None,
              keyword_index_ids = Some [''c1'', ''c3'']\<rparr>) ''fable'' ''wise old man'' 2
     = Inl (CorpusUnavailableError ''fable'' [VectorIndex])
   \<and> component_present \<lparr>chunk_files = Some fable, vector_records = (None :: (chunk_id \<times> unit) list option),
        keyword_index_ids = Some [''c1'', ''c3'']\<rparr> ChunksComponent
   \<and> \<not> component_present \<lparr>chunk_files = Some fable, vector_records = (None :: (chunk_id \<times> unit) list option),
        keyword_index_ids = Some [''c1'', ''c3'']\<rparr> VectorIndex
   \<and> component_present \<lparr>chunk_files = Some fable, vector_records = (None :: (chunk_id \<times> unit) list option),
        keyword_index_ids = Some [''c1'', ''c3'']\<rparr> KeywordIndex"
proof -
  let ?a = "\<lparr>chunk_files = Some fable, vector_records = (None :: (chunk_id \<times> unit) list option),
        keyword_index_ids = Some [''c1'', ''c3'']\<rparr>"
  have p: "component_present ?a ChunksComponent" "\<not> component_present ?a VectorIndex"
    "component_present ?a KeywordIndex"
    by (simp_all add: component_present_def)
  from retrieve_completeness_gate [of "\<lparr>embed_query = (\<lambda>q. ()), vector_query = (\<lambda>rs v n. map fst rs),
             keyword_query = (\<lambda>ks cs q n. ks)\<rparr>" "[\<lparr>entry_name = ''fable'', entry_is_active = True\<rparr>]"
      "\<lambda>n. ?a" "''fable''" "''wise old man''" 2] p
  show ?thesis by blast
qed


end
